theory Spec2Isabelle
  imports Complex_Main
begin

section \<open>Python values used by the retrieval pipeline\<close>

text \<open>
  Python integers are unbounded, so they are \<open>int\<close>. A Python string is a sequence of
  characters; the chunker only measures and slices it, so it is modelled over any element
  type. Elsewhere strings are HOL strings.
\<close>

definition py_index :: "nat \<Rightarrow> int \<Rightarrow> nat" where
  \<comment> \<open>How a slice bound is adjusted to a sequence of length \<open>n\<close>: a negative bound counts
      from the end and is clipped at 0, any other bound is clipped at \<open>n\<close>.\<close>
  "py_index n i = (if i < 0 then nat (max 0 (i + int n)) else min (nat i) n)"

definition py_slice :: "'a list \<Rightarrow> int \<Rightarrow> int \<Rightarrow> 'a list" where
  \<comment> \<open>\<open>xs[start:stop]\<close>; empty when the adjusted stop is not after the adjusted start.\<close>
  "py_slice xs start stop =
     (let lo = py_index (length xs) start; hi = py_index (length xs) stop
      in take (hi - lo) (drop lo xs))"

definition str_replace_empty :: "'a list \<Rightarrow> 'a list \<Rightarrow> 'a list" where
  \<comment> \<open>\<open>s.replace("", new)\<close>: \<open>new\<close> is inserted before every character and at the end.\<close>
  "str_replace_empty s new = new @ concat (map (\<lambda>c. c # new) s)"

definition str_join :: "'a list \<Rightarrow> 'a list list \<Rightarrow> 'a list" where
  \<comment> \<open>\<open>sep.join(parts)\<close>\<close>
  "str_join sep parts = (case parts of [] \<Rightarrow> [] | p # ps \<Rightarrow> p @ concat (map (\<lambda>q. sep @ q) ps))"

definition str_strip :: "('a \<Rightarrow> bool) \<Rightarrow> 'a list \<Rightarrow> 'a list" where
  \<comment> \<open>\<open>s.strip()\<close>; the character class \<open>str.isspace\<close> is a table of the Python runtime
      and is taken as a parameter.\<close>
  "str_strip isspace s = rev (dropWhile isspace (rev (dropWhile isspace s)))"

section \<open>The chunker (ingest.py)\<close>

text \<open>
  \<^verbatim>\<open>
  def chunk_text(text, chunk_size=800, overlap=100):
      if not text: return []
      text = text.replace("", "")
      chunks = []; start = 0; length = len(text)
      while start < length:
          end = min(start + chunk_size, length)
          chunk = text[start:end]
          chunks.append(chunk)
          start += chunk_size - overlap
      return chunks
  \<close>
  The function has no \<open>raise\<close> and calls only total string operations, so a call
  either returns a list or runs forever. The loop is a partial function into \<open>option\<close>:
  \<open>None\<close> is the call that never returns.
\<close>

partial_function (option) chunk_loop ::
  "'a list \<Rightarrow> int \<Rightarrow> int \<Rightarrow> int \<Rightarrow> 'a list list \<Rightarrow> 'a list list option" where
  "chunk_loop text chunk_size overlap start chunks =
     (if start < int (length text)
      then chunk_loop text chunk_size overlap (start + (chunk_size - overlap))
             (chunks @ [py_slice text start (min (start + chunk_size) (int (length text)))])
      else Some chunks)"

declare chunk_loop.simps [code]

definition chunk_text :: "'a list \<Rightarrow> int \<Rightarrow> int \<Rightarrow> 'a list list option" where
  "chunk_text text chunk_size overlap =
     (if text = [] then Some []
      else chunk_loop (str_replace_empty text []) chunk_size overlap 0 [])"

text \<open>
  The windows as the specification words them: window \<open>i\<close> is
  \<open>text[i * (chunk_size - overlap) : i * (chunk_size - overlap) + chunk_size]\<close>, and there is
  one window for every multiple of the step that lies before the end of the text.
\<close>

definition window :: "'a list \<Rightarrow> int \<Rightarrow> int \<Rightarrow> nat \<Rightarrow> 'a list" where
  "window text chunk_size overlap i =
     py_slice text (int i * (chunk_size - overlap)) (int i * (chunk_size - overlap) + chunk_size)"

definition window_count :: "nat \<Rightarrow> int \<Rightarrow> int \<Rightarrow> nat" where
  \<comment> \<open>number of values \<open>start, start + step, ...\<close> below \<open>n\<close>, for a positive step\<close>
  "window_count n step start = nat ((int n - start + step - 1) div step)"

section \<open>The retrieval service (retriever.py)\<close>

subsection \<open>External collaborators\<close>

text \<open>
  The embedding model and the faiss index are libraries, not code of the repository. The
  embedding call \<open>model.encode\<close> and the nearest-neighbour query \<open>index.search\<close> are
  parameters of the operations that use them. What \<open>encode\<close> returns is a numpy array of
  one or two dimensions, which is all that the code inspects.
\<close>

type_synonym vec = "real list"

datatype ndarray = Arr1 vec | Arr2 "vec list"

datatype error =
    RuntimeError string
  | DimensionMismatch
  | AttributeError
  | FileNotFoundError
  | PermissionError
  | DecodeError

record faiss_index =
  d :: int
  xb :: "vec list"

definition IndexFlatL2 :: "int \<Rightarrow> faiss_index" where
  "IndexFlatL2 dimension = \<lparr>d = dimension, xb = []\<rparr>"

definition ntotal :: "faiss_index \<Rightarrow> nat" where
  "ntotal ix = length (xb ix)"

definition index_add :: "faiss_index \<Rightarrow> vec list \<Rightarrow> error + faiss_index" where
  \<comment> \<open>Modelled from the spec: the vector index's \<open>add\<close> (faiss, a library outside the
      repository). It appends in order; every vector's length must equal the index's
      dimension, or the call fails with a dimension mismatch and stores nothing.\<close>
  "index_add ix rows =
     (if list_all (\<lambda>v. int (length v) = d ix) rows
      then Inr (ix\<lparr>xb := xb ix @ rows\<rparr>)
      else Inl DimensionMismatch)"

subsection \<open>Persisted files\<close>

text \<open>
  A path holds nothing, a faiss index, a JSON list of metadata records, or bytes that
  neither reader accepts. \<open>faiss.read_index\<close> and \<open>json.load\<close> raise on a file that is
  not theirs. \<open>os.remove\<close> raises on a missing path, and on an existing path whose
  removal the operating system refuses (a directory, a file in a read-only directory, a file
  held open elsewhere); the predicate \<open>locked\<close> says for which paths it refuses.
  The metadata list is typed as the code annotates it (\<open>List[Dict]\<close>): a list of
  dictionaries from strings to strings, each an association list.
\<close>

type_synonym meta = "(string \<times> string) list"

datatype file_content = IndexBlob faiss_index | JsonMeta "meta list" | Garbage

type_synonym disk = "string \<Rightarrow> file_content option"

definition path_exists :: "disk \<Rightarrow> string \<Rightarrow> bool" where
  "path_exists dk p = (dk p \<noteq> None)"

definition read_index :: "disk \<Rightarrow> string \<Rightarrow> error + faiss_index" where
  "read_index dk p =
     (case dk p of
        None \<Rightarrow> Inl FileNotFoundError
      | Some (IndexBlob ix) \<Rightarrow> Inr ix
      | Some _ \<Rightarrow> Inl DecodeError)"

definition json_load :: "disk \<Rightarrow> string \<Rightarrow> error + meta list" where
  "json_load dk p =
     (case dk p of
        None \<Rightarrow> Inl FileNotFoundError
      | Some (JsonMeta ms) \<Rightarrow> Inr ms
      | Some _ \<Rightarrow> Inl DecodeError)"

definition os_remove :: "(string \<Rightarrow> bool) \<Rightarrow> disk \<Rightarrow> string \<Rightarrow> error + disk" where
  "os_remove locked dk p =
     (case dk p of
        None \<Rightarrow> Inl FileNotFoundError
      | Some _ \<Rightarrow> if locked p then Inl PermissionError else Inr (dk(p := None)))"

subsection \<open>The Retriever object\<close>

record retriever =
  index_path :: string
  meta_path :: string
  dim :: int
  index :: "faiss_index option"
  metadatas :: "meta list"

definition dict_get :: "meta \<Rightarrow> string \<Rightarrow> string option" where
  \<comment> \<open>\<open>m.get(key)\<close>: \<open>None\<close> for a missing key\<close>
  "dict_get m k = map_of m k"

definition make_meta :: "string \<Rightarrow> string \<Rightarrow> meta" where
  \<comment> \<open>the dictionary \<open>{"text": t, "source": s}\<close>\<close>
  "make_meta t s = [(''text'', t), (''source'', s)]"

text \<open>
  \<^verbatim>\<open>
  def _load(self):
      if os.path.exists(self.index_path) and faiss is not None:
          try: self.index = faiss.read_index(self.index_path)
          except Exception: self.index = None
      if os.path.exists(self.meta_path):
          try: ... self.metadatas = json.load(f)
          except Exception: self.metadatas = []
      if self.index is None:
          if faiss is None: raise RuntimeError(...)
          self.index = faiss.IndexFlatL2(self.dim)
  \<close>
  The module global \<open>faiss\<close> is the module or \<open>None\<close>; the flag \<open>faiss\<close> below says
  that it is the module.
\<close>

definition load_index :: "bool \<Rightarrow> disk \<Rightarrow> retriever \<Rightarrow> retriever" where
  "load_index faiss dk r =
     (if path_exists dk (index_path r) \<and> faiss
      then (case read_index dk (index_path r) of
              Inr ix \<Rightarrow> r\<lparr>index := Some ix\<rparr>
            | Inl _ \<Rightarrow> r\<lparr>index := None\<rparr>)
      else r)"

definition load_metadata :: "disk \<Rightarrow> retriever \<Rightarrow> retriever" where
  "load_metadata dk r =
     (if path_exists dk (meta_path r)
      then (case json_load dk (meta_path r) of
              Inr ms \<Rightarrow> r\<lparr>metadatas := ms\<rparr>
            | Inl _ \<Rightarrow> r\<lparr>metadatas := []\<rparr>)
      else r)"

definition Retriever_load :: "bool \<Rightarrow> disk \<Rightarrow> retriever \<Rightarrow> error + retriever" where
  "Retriever_load faiss dk r =
     (let r1 = load_index faiss dk r;
          r2 = load_metadata dk r1
      in if index r2 = None
         then (if \<not> faiss
               then Inl (RuntimeError ''faiss is required. Please install faiss-cpu or faiss-gpu.'')
               else Inr (r2\<lparr>index := Some (IndexFlatL2 (dim r2))\<rparr>))
         else Inr r2)"

definition Retriever_init :: "bool \<Rightarrow> disk \<Rightarrow> string \<Rightarrow> string \<Rightarrow> int \<Rightarrow> error + retriever" where
  \<comment> \<open>\<open>__init__\<close>; the last argument is the embedding model's declared dimension\<close>
  "Retriever_init faiss dk ipath mpath dimension =
     Retriever_load faiss dk
       \<lparr>index_path = ipath, meta_path = mpath, dim = dimension, index = None, metadatas = []\<rparr>"

text \<open>
  \<^verbatim>\<open>
  def reset(self, remove_files=False):
      if faiss is None: raise RuntimeError(...)
      self.index = faiss.IndexFlatL2(self.dim)
      self.metadatas = []
      if remove_files:
          try:
              if os.path.exists(self.index_path): os.remove(self.index_path)
          except Exception: pass
          try:
              if os.path.exists(self.meta_path): os.remove(self.meta_path)
          except Exception: pass
  \<close>
  The state is the disk together with the object. The \<open>raise\<close> comes before any
  assignment, so a failed call leaves both as they were. Each removal has its own
  \<open>try\<close>: a removal that raises is swallowed and leaves the disk as it was.
\<close>

definition remove_quietly :: "(string \<Rightarrow> bool) \<Rightarrow> disk \<Rightarrow> string \<Rightarrow> disk" where
  "remove_quietly locked dk p =
     (if path_exists dk p
      then (case os_remove locked dk p of Inr dk' \<Rightarrow> dk' | Inl _ \<Rightarrow> dk)
      else dk)"

definition reset ::
  "bool \<Rightarrow> (string \<Rightarrow> bool) \<Rightarrow> bool \<Rightarrow> disk \<times> retriever \<Rightarrow> error + disk \<times> retriever" where
  "reset faiss locked remove_files w =
     (case w of (dk, r) \<Rightarrow>
        if \<not> faiss then Inl (RuntimeError ''faiss is required to create or reset the index'')
        else
          let r' = r\<lparr>index := Some (IndexFlatL2 (dim r)), metadatas := []\<rparr>
          in if remove_files
             then Inr (remove_quietly locked (remove_quietly locked dk (index_path r'))
                         (meta_path r'), r')
             else Inr (dk, r'))"

text \<open>
  \<^verbatim>\<open>
  def add_documents(self, texts, sources):
      embeddings = self.model.encode(texts, ...)
      if len(embeddings.shape) == 1:
          embeddings = np.expand_dims(embeddings, 0)
      self.index.add(embeddings.astype('float32'))
      for t, s in zip(texts, sources):
          self.metadatas.append({"text": t, "source": s})
  \<close>
  \<open>index.add\<close> is the only call that can fail after the embedding, and it fails before
  it stores anything: an error leaves the object unchanged.
\<close>

definition rows_of :: "ndarray \<Rightarrow> vec list" where
  "rows_of a = (case a of Arr1 v \<Rightarrow> [v] | Arr2 vs \<Rightarrow> vs)"

definition append_metas :: "meta list \<Rightarrow> (string \<times> string) list \<Rightarrow> meta list" where
  "append_metas ms pairs = foldl (\<lambda>acc (t, s). acc @ [make_meta t s]) ms pairs"

definition add_documents ::
  "(string list \<Rightarrow> ndarray) \<Rightarrow> retriever \<Rightarrow> string list \<Rightarrow> string list \<Rightarrow> error + retriever" where
  "add_documents encode r texts sources =
     (let embeddings = rows_of (encode texts)
      in case index r of
           None \<Rightarrow> Inl AttributeError
         | Some ix \<Rightarrow>
             (case index_add ix embeddings of
                Inl e \<Rightarrow> Inl e
              | Inr ix' \<Rightarrow>
                  Inr (r\<lparr>index := Some ix',
                         metadatas := append_metas (metadatas r) (zip texts sources)\<rparr>)))"

fun add_each ::
  "(string list \<Rightarrow> ndarray) \<Rightarrow> retriever \<Rightarrow> (string list \<times> string list) list \<Rightarrow> retriever" where
  \<comment> \<open>a sequence of calls on one object; a call that raises leaves the object as it was\<close>
  "add_each encode r [] = r"
| "add_each encode r ((texts, sources) # calls) =
     (case add_documents encode r texts sources of
        Inl _ \<Rightarrow> add_each encode r calls
      | Inr r' \<Rightarrow> add_each encode r' calls)"

definition lockstep :: "retriever \<Rightarrow> bool" where
  "lockstep r = (case index r of None \<Rightarrow> False | Some ix \<Rightarrow> ntotal ix = length (metadatas r))"

text \<open>
  \<^verbatim>\<open>
  def search(self, query, top_k=4):
      q_emb = self.model.encode([query], convert_to_numpy=True)
      ...
      D, I = self.index.search(q_emb, top_k)
      results = []
      for score, idx in zip(D[0], I[0]):
          if idx < 0 or idx >= len(self.metadatas): continue
          meta = self.metadatas[idx]
          results.append({"score": float(score), "text": meta.get("text"),
                          "source": meta.get("source")})
      return results
  \<close>
  The parameter \<open>index_search\<close> returns the rows \<open>D[0]\<close> and \<open>I[0]\<close> of the single
  query, or the error that the library raised.
\<close>

record hit =
  hit_score :: real
  hit_text :: "string option"
  hit_source :: "string option"

definition hit_at :: "meta list \<Rightarrow> real \<times> int \<Rightarrow> hit" where
  "hit_at ms p =
     \<lparr>hit_score = fst p,
      hit_text = dict_get (ms ! nat (snd p)) ''text'',
      hit_source = dict_get (ms ! nat (snd p)) ''source''\<rparr>"

fun collect_hits :: "meta list \<Rightarrow> (real \<times> int) list \<Rightarrow> hit list \<Rightarrow> hit list" where
  "collect_hits ms [] results = results"
| "collect_hits ms ((score, idx) # rest) results =
     (if idx < 0 \<or> idx \<ge> int (length ms) then collect_hits ms rest results
      else collect_hits ms rest (results @ [hit_at ms (score, idx)]))"

definition search ::
  "(string list \<Rightarrow> ndarray) \<Rightarrow> (faiss_index \<Rightarrow> ndarray \<Rightarrow> int \<Rightarrow> error + real list \<times> int list) \<Rightarrow>
   retriever \<Rightarrow> string \<Rightarrow> int \<Rightarrow> error + hit list" where
  "search encode index_search r query top_k =
     (let q_emb = encode [query]
      in case index r of
           None \<Rightarrow> Inl AttributeError
         | Some ix \<Rightarrow>
             (case index_search ix q_emb top_k of
                Inl e \<Rightarrow> Inl e
              | Inr (D0, I0) \<Rightarrow> Inr (collect_hits (metadatas r) (zip D0 I0) [])))"

definition valid_position :: "meta list \<Rightarrow> real \<times> int \<Rightarrow> bool" where
  "valid_position ms p = (0 \<le> snd p \<and> snd p < int (length ms))"

section \<open>The extractive answer strategy (qa.py)\<close>

text \<open>
  \<^verbatim>\<open>
  def answer_with_roberta(question, contexts):
      context_text = "\n".join(contexts)
      result = roberta_model(question=question, context=context_text)
      answer = result.get("answer", "").strip()
      score = result.get("score", 0)
      if not answer or score < 0.1:
          answer = "I don't know, but I can help search for more info."
      log_qa_interaction(question, answer, score)
      return answer
  \<close>
  The question-answering pipeline is a parameter; its result is a dictionary in which either
  key may be missing. The score is a number compared with 0.1 and is modelled as a real. The
  log is the list of entries appended so far, and the clock reading is an argument. The
  apostrophe of the sentinel is U+2019, written as its three UTF-8 bytes.
\<close>

record qa_result =
  res_answer :: "string option"
  res_score :: "real option"

record log_entry =
  log_timestamp :: string
  log_question :: string
  log_answer :: string
  log_confidence :: "real option"

definition sentinel :: string where
  "sentinel = ''I don'' @ [CHR 0xE2, CHR 0x80, CHR 0x99] @ ''t know, but I can help search for more info.''"

definition log_qa_interaction ::
  "string \<Rightarrow> log_entry list \<Rightarrow> string \<Rightarrow> string \<Rightarrow> real option \<Rightarrow> log_entry list" where
  "log_qa_interaction now lg question answer score =
     lg @ [\<lparr>log_timestamp = now @ ''Z'', log_question = question, log_answer = answer,
            log_confidence = score\<rparr>]"

definition answer_with_roberta ::
  "(char \<Rightarrow> bool) \<Rightarrow> (string \<Rightarrow> string \<Rightarrow> qa_result) \<Rightarrow> string \<Rightarrow> log_entry list \<Rightarrow>
   string \<Rightarrow> string list \<Rightarrow> string \<times> log_entry list" where
  "answer_with_roberta isspace roberta_model now lg question contexts =
     (let context_text = str_join [CHR 0x0A] contexts;
          result = roberta_model question context_text;
          answer = str_strip isspace (case res_answer result of None \<Rightarrow> [] | Some a \<Rightarrow> a);
          score = (case res_score result of None \<Rightarrow> 0 | Some s \<Rightarrow> s);
          answer' = (if answer = [] \<or> score < 1 / 10 then sentinel else answer)
      in (answer', log_qa_interaction now lg question answer' (Some score)))"

section \<open>Properties of the chunker\<close>

lemma str_replace_empty_Nil: "str_replace_empty s [] = s"
  by (induction s) (simp_all add: str_replace_empty_def)

lemma py_index_min: "py_index n (min b (int n)) = py_index n b"
  by (auto simp: py_index_def min_def)

lemma py_slice_min: "py_slice xs a (min b (int (length xs))) = py_slice xs a b"
  by (simp add: py_slice_def py_index_min)

lemma py_slice_nat: "py_slice xs (int a) (int a + int c) = take c (drop a xs)"
proof (cases "a < length xs")
  case True
  then show ?thesis
    by (auto simp: py_slice_def py_index_def Let_def nat_add_distrib min_def)
next
  case False
  then show ?thesis by (simp add: py_slice_def py_index_def Let_def)
qed

lemma window_count_stop:
  assumes "0 < step" "\<not> start < int n"
  shows "window_count n step start = 0"
proof -
  define A where "A = int n - start + step - 1"
  have lt: "A < step" using assms by (simp add: A_def)
  have "A div step \<le> 0"
  proof (cases "A < 0")
    case True
    then have "A div step < 0" using assms(1) by (rule div_neg_pos_less0)
    then show ?thesis by simp
  next
    case False
    then have "A div step = 0" using lt by simp
    then show ?thesis by simp
  qed
  then show ?thesis by (simp add: window_count_def A_def)
qed

lemma window_count_step:
  assumes "0 < step" "start < int n"
  shows "window_count n step start = Suc (window_count n step (start + step))"
proof -
  define A where "A = int n - (start + step) + step - 1"
  have e: "int n - start + step - 1 = A + step" by (simp add: A_def)
  have nn: "0 \<le> A div step"
    using assms by (simp add: A_def pos_imp_zdiv_nonneg_iff)
  have "step \<noteq> 0" using assms(1) by simp
  then have "(A + step) div step = A div step + 1"
    by (rule div_add_self2)
  then show ?thesis using nn unfolding window_count_def e A_def[symmetric]
    by (simp add: nat_add_distrib)
qed

lemma window_count_less:
  assumes "0 < step"
  shows "(k < window_count n step start) = (start + int k * step < int n)"
proof (induction k arbitrary: start)
  case 0
  show ?case
  proof (cases "start < int n")
    case True
    then show ?thesis using window_count_step[OF assms True] by simp
  next
    case False
    then show ?thesis using window_count_stop[OF assms False] by simp
  qed
next
  case (Suc k)
  show ?case
  proof (cases "start < int n")
    case True
    have "(Suc k < window_count n step start) = (k < window_count n step (start + step))"
      using window_count_step[OF assms True] by simp
    also have "\<dots> = (start + step + int k * step < int n)" by (rule Suc.IH)
    finally show ?thesis by (simp add: algebra_simps)
  next
    case False
    have "0 \<le> int (Suc k) * step" using assms by simp
    then have "\<not> start + int (Suc k) * step < int n" using False by linarith
    then show ?thesis using window_count_stop[OF assms False] by simp
  qed
qed

lemma chunk_loop_windows:
  assumes "0 < chunk_size - overlap"
  shows "chunk_loop s chunk_size overlap start chunks =
     Some (chunks @ map (\<lambda>k. py_slice s (start + int k * (chunk_size - overlap))
                                   (start + int k * (chunk_size - overlap) + chunk_size))
                     [0..<window_count (length s) (chunk_size - overlap) start])"
proof (induction "nat (int (length s) - start)" arbitrary: start chunks rule: less_induct)
  case less
  show ?case
  proof (cases "start < int (length s)")
    case False
    then show ?thesis
      using assms by (subst chunk_loop.simps) (simp add: window_count_stop)
  next
    case True
    let ?st = "chunk_size - overlap"
    have m: "nat (int (length s) - (start + ?st)) < nat (int (length s) - start)"
      using True assms by linarith
    have unfold: "chunk_loop s chunk_size overlap start chunks =
        chunk_loop s chunk_size overlap (start + ?st) (chunks @ [py_slice s start (start + chunk_size)])"
      using True by (subst chunk_loop.simps) (simp add: py_slice_min)
    have shift: "map (\<lambda>k. py_slice s (start + int k * ?st) (start + int k * ?st + chunk_size))
                   [0..<Suc (window_count (length s) ?st (start + ?st))] =
                 py_slice s start (start + chunk_size) #
                 map (\<lambda>k. py_slice s (start + ?st + int k * ?st) (start + ?st + int k * ?st + chunk_size))
                   [0..<window_count (length s) ?st (start + ?st)]"
      by (simp add: map_upt_Suc algebra_simps del: upt_Suc)
    show ?thesis
      unfolding unfold less[OF m] window_count_step[OF assms True] shift by simp
  qed
qed

lemma chunk_loop_diverges:
  assumes "chunk_size - overlap \<le> 0" "start < int (length s)"
  shows "chunk_loop s chunk_size overlap start chunks = None"
proof (rule ccontr)
  assume "chunk_loop s chunk_size overlap start chunks \<noteq> None"
  then obtain y where y: "chunk_loop s chunk_size overlap start chunks = Some y" by auto
  have "\<not> (chunk_size - overlap \<le> 0 \<and> start < int (length s))"
  proof (rule chunk_loop.raw_induct[where P = "\<lambda>t c ov st ch r. \<not> (c - ov \<le> 0 \<and> st < int (length t))", OF _ y])
    fix f :: "'a list \<Rightarrow> int \<Rightarrow> int \<Rightarrow> int \<Rightarrow> 'a list list \<Rightarrow> 'a list list option"
    fix t c ov st ch r
    assume ih: "\<And>t c ov st ch r. f t c ov st ch = Some r \<Longrightarrow> \<not> (c - ov \<le> 0 \<and> st < int (length t))"
    assume body: "(if st < int (length t)
        then f t c ov (st + (c - ov)) (ch @ [py_slice t st (min (st + c) (int (length t)))])
        else Some ch) = Some r"
    show "\<not> (c - ov \<le> 0 \<and> st < int (length t))"
    proof
      assume a: "c - ov \<le> 0 \<and> st < int (length t)"
      with body have "f t c ov (st + (c - ov)) (ch @ [py_slice t st (min (st + c) (int (length t)))]) = Some r"
        by simp
      from ih[OF this] a show False by linarith
    qed
  qed
  with assms show False by simp
qed

lemma chunk_text_windows:
  assumes "s \<noteq> []" "overlap < chunk_size"
  shows "chunk_text s chunk_size overlap =
     Some (map (window s chunk_size overlap) [0..<window_count (length s) (chunk_size - overlap) 0])"
proof -
  have "0 < chunk_size - overlap" using assms(2) by simp
  from chunk_loop_windows[OF this, of s 0 "[]"] assms(1) show ?thesis
    by (simp add: chunk_text_def str_replace_empty_Nil window_def)
qed

lemma chunk_text_diverges:
  assumes "s \<noteq> []" "chunk_size \<le> overlap"
  shows "chunk_text s chunk_size overlap = None"
  using assms chunk_loop_diverges[of chunk_size overlap 0 s "[]"]
  by (simp add: chunk_text_def str_replace_empty_Nil)

lemma chunk_text_short:
  assumes "chunk_size - overlap < int (length s)" "int (length s) \<le> chunk_size"
    "int (length s) \<le> 2 * (chunk_size - overlap)"
  shows "chunk_text s chunk_size overlap = Some [s, drop (nat (chunk_size - overlap)) s]"
proof -
  let ?st = "chunk_size - overlap"
  have pos: "0 < ?st" using assms(1,3) by arith
  have ne: "s \<noteq> []" using assms(1) pos by auto
  have ov: "overlap < chunk_size" using pos by simp
  have c1: "1 < window_count (length s) ?st 0"
    using assms(1) by (simp add: window_count_less[OF pos])
  have c2: "\<not> 2 < window_count (length s) ?st 0"
    using assms(3) by (simp add: window_count_less[OF pos])
  have cnt: "window_count (length s) ?st 0 = Suc (Suc 0)" using c1 c2 by linarith
  have w0: "window s chunk_size overlap 0 = s"
    using py_slice_nat[of s 0 "nat chunk_size"] assms(2) pos by (simp add: window_def)
  have "window s chunk_size overlap (Suc 0) = py_slice s (int (nat ?st)) (int (nat ?st) + int (nat chunk_size))"
    using pos assms(2) by (simp add: window_def)
  also have "\<dots> = take (nat chunk_size) (drop (nat ?st) s)" by (rule py_slice_nat)
  also have "\<dots> = drop (nat ?st) s" using assms(2) by simp
  finally have w1: "window s chunk_size overlap (Suc 0) = drop (nat ?st) s" .
  show ?thesis
    unfolding chunk_text_windows[OF ne ov] cnt by (simp add: w0 w1 upt_rec)
qed

text \<open>
  Claim C2 as stated: a call with \<open>overlap \<ge> chunk_size\<close> fails with a configuration
  error instead of looping. The code has no such check: on the one-character text with
  chunk size 1 and overlap 1 the start index never advances and the call does not return.
\<close>
theorem chunk_text_unguarded_counterexample: "chunk_text ''a'' 1 1 = None"
  by (rule chunk_text_diverges) simp_all

text \<open>
  Claim C2, amended. \<open>chunk_text\<close> checks nothing and raises nothing. It returns a chunk
  list on every input with \<open>overlap < chunk_size\<close>, and on the empty text whatever the
  parameters; on a non-empty text with \<open>overlap \<ge> chunk_size\<close> it never returns.
\<close>
theorem chunk_text_returns_iff:
  "(overlap < chunk_size \<or> s = [] \<longrightarrow> (\<exists>chunks. chunk_text s chunk_size overlap = Some chunks))
   \<and> (chunk_size \<le> overlap \<and> s \<noteq> [] \<longrightarrow> chunk_text s chunk_size overlap = None)"
proof (intro conjI impI)
  assume "overlap < chunk_size \<or> s = []"
  then show "\<exists>chunks. chunk_text s chunk_size overlap = Some chunks"
  proof (cases "s = []")
    case True
    then show ?thesis by (simp add: chunk_text_def)
  next
    case False
    assume "overlap < chunk_size \<or> s = []"
    with False have "overlap < chunk_size" by simp
    from chunk_text_windows[OF False this] show ?thesis by blast
  qed
next
  assume "chunk_size \<le> overlap \<and> s \<noteq> []"
  then show "chunk_text s chunk_size overlap = None" by (simp add: chunk_text_diverges)
qed

theorem chunk_text_returns_iff_witness:
  "(\<exists>chunks. chunk_text ''abcde'' 3 1 = Some chunks) \<and> chunk_text ''abcde'' 3 3 = None"
  using chunk_text_returns_iff[of 1 3 "''abcde''"] chunk_text_returns_iff[of 3 3 "''abcde''"]
  by simp

text \<open>
  Claim C10 as stated: every text with
  \<open>chunk_size - overlap < len(text) \<le> chunk_size\<close> gives exactly two chunks. With chunk
  size 3 and overlap 2 the text \<open>abc\<close> satisfies the condition and gives three.
\<close>
theorem chunk_text_two_chunks_counterexample:
  "(3::int) - 2 < int (length ''abc'') \<and> int (length ''abc'') \<le> 3
   \<and> chunk_text ''abc'' 3 2 = Some [''abc'', ''bc'', ''c'']"
  by (simp add: chunk_text_def str_replace_empty_def chunk_loop.simps py_slice_def py_index_def)

text \<open>
  Claim C10, amended. When \<open>chunk_size - overlap < len(text) \<le> chunk_size\<close> and also
  \<open>len(text) \<le> 2 * (chunk_size - overlap)\<close> (as for lengths 701 to 800 at the defaults
  800 and 100), \<open>chunk_text\<close> returns exactly two chunks: the whole text, then its last
  \<open>len(text) - (chunk_size - overlap)\<close> characters, a suffix of the first chunk.
\<close>
theorem chunk_text_two_chunks:
  assumes "chunk_size - overlap < int (length s)" "int (length s) \<le> chunk_size"
    "int (length s) \<le> 2 * (chunk_size - overlap)"
  shows "chunk_text s chunk_size overlap = Some [s, drop (nat (chunk_size - overlap)) s]
     \<and> int (length (drop (nat (chunk_size - overlap)) s)) = int (length s) - (chunk_size - overlap)
     \<and> take (nat (chunk_size - overlap)) s @ drop (nat (chunk_size - overlap)) s = s"
  using chunk_text_short[OF assms] assms by simp

theorem chunk_text_two_chunks_witness:
  "chunk_text ''abcde'' 5 2 = Some [''abcde'', ''de'']"
  using chunk_text_two_chunks[of 5 2 "''abcde''"] by simp


lemma window_default: "window s 800 100 i = take 800 (drop (700 * i) s)"
proof -
  have "window s 800 100 i = py_slice s (int (700 * i)) (int (700 * i) + int 800)"
    by (simp add: window_def mult.commute)
  then show ?thesis by (simp only: py_slice_nat)
qed

lemma window_default_overlap:
  "drop 700 (window s 800 100 i) = take 100 (window s 800 100 (Suc i))"
  by (simp add: window_default drop_take add.commute)

text \<open>
  Claim C7 as stated: at chunk size 800 and overlap 100 only the final chunk may be shorter
  than 800. A text of 701 characters gives two chunks; the first has 701 characters and is
  not the final one.
\<close>
theorem chunk_text_nonfinal_short_counterexample:
  "chunk_text (replicate 701 (CHR ''a'')) 800 100 = Some [replicate 701 (CHR ''a''), ''a'']
   \<and> length (replicate 701 (CHR ''a'')) < 800"
  using chunk_text_short[of 800 100 "replicate 701 (CHR ''a'')"] by simp

text \<open>
  Claim C7, amended. For a non-empty text and \<open>overlap < chunk_size\<close>, \<open>chunk_text\<close>
  returns one chunk for every \<open>i\<close> with \<open>i * (chunk_size - overlap) < len(text)\<close>, and
  chunk \<open>i\<close> is
  \<open>text[i * (chunk_size - overlap) : i * (chunk_size - overlap) + chunk_size]\<close>. At chunk size
  800 and overlap 100, the last 100 characters of a full-size chunk are the first 100 of the
  full-size chunk that follows it, no chunk is longer than 800, and every chunk except
  possibly the last two has exactly 800 characters.
\<close>
theorem chunk_text_windowing:
  assumes "s \<noteq> []" "overlap < chunk_size"
  shows "\<exists>chunks. chunk_text s chunk_size overlap = Some chunks
     \<and> (\<forall>i. (i < length chunks) = (int i * (chunk_size - overlap) < int (length s)))
     \<and> (\<forall>i < length chunks. chunks ! i =
           py_slice s (int i * (chunk_size - overlap)) (int i * (chunk_size - overlap) + chunk_size))
     \<and> (chunk_size = 800 \<and> overlap = 100 \<longrightarrow>
          (\<forall>i. Suc i < length chunks \<and> length (chunks ! i) = 800 \<and> length (chunks ! Suc i) = 800 \<longrightarrow>
             drop 700 (chunks ! i) = take 100 (chunks ! Suc i) \<and> length (drop 700 (chunks ! i)) = 100)
          \<and> (\<forall>i. i + 2 < length chunks \<longrightarrow> length (chunks ! i) = 800)
          \<and> (\<forall>i < length chunks. length (chunks ! i) \<le> 800))"
proof -
  let ?st = "chunk_size - overlap"
  let ?n = "window_count (length s) ?st 0"
  let ?chunks = "map (window s chunk_size overlap) [0..<?n]"
  have pos: "0 < ?st" using assms(2) by simp
  have ret: "chunk_text s chunk_size overlap = Some ?chunks"
    by (rule chunk_text_windows[OF assms])
  have len: "\<forall>i. (i < length ?chunks) = (int i * ?st < int (length s))"
    using window_count_less[OF pos, of _ "length s" 0] by simp
  have nth: "\<forall>i < length ?chunks. ?chunks ! i = py_slice s (int i * ?st) (int i * ?st + chunk_size)"
    by (simp add: window_def)
  have dflt: "chunk_size = 800 \<and> overlap = 100 \<longrightarrow>
          (\<forall>i. Suc i < length ?chunks \<and> length (?chunks ! i) = 800 \<and> length (?chunks ! Suc i) = 800 \<longrightarrow>
             drop 700 (?chunks ! i) = take 100 (?chunks ! Suc i) \<and> length (drop 700 (?chunks ! i)) = 100)
          \<and> (\<forall>i. i + 2 < length ?chunks \<longrightarrow> length (?chunks ! i) = 800)
          \<and> (\<forall>i < length ?chunks. length (?chunks ! i) \<le> 800)"
  proof (intro impI, elim conjE)
    assume cs: "chunk_size = 800" and ov: "overlap = 100"
    have n_less: "(k < ?n) = (700 * k < length s)" for k
    proof -
      have "(k < ?n) = (int k * 700 < int (length s))"
        using window_count_less[OF pos, of k "length s" 0] unfolding cs ov by simp
      also have "\<dots> = (int (700 * k) < int (length s))" by (simp add: mult.commute)
      also have "\<dots> = (700 * k < length s)" by (rule of_nat_less_iff)
      finally show ?thesis .
    qed
    have a: "\<forall>i. Suc i < length ?chunks \<and> length (?chunks ! i) = 800 \<and> length (?chunks ! Suc i) = 800 \<longrightarrow>
             drop 700 (?chunks ! i) = take 100 (?chunks ! Suc i) \<and> length (drop 700 (?chunks ! i)) = 100"
      unfolding cs ov by (auto simp: window_default_overlap)
    have b: "\<forall>i. i + 2 < length ?chunks \<longrightarrow> length (?chunks ! i) = 800"
    proof (intro allI impI)
      fix i assume "i + 2 < length ?chunks"
      then have i2: "i + 2 < ?n" by simp
      then have "700 * (i + 2) < length s" by (simp only: n_less)
      then show "length (?chunks ! i) = 800"
        using i2 unfolding cs ov by (simp add: window_default)
    qed
    have c: "\<forall>i < length ?chunks. length (?chunks ! i) \<le> 800"
      unfolding cs ov by (simp add: window_default)
    from a b c show "(\<forall>i. Suc i < length ?chunks \<and> length (?chunks ! i) = 800 \<and> length (?chunks ! Suc i) = 800 \<longrightarrow>
             drop 700 (?chunks ! i) = take 100 (?chunks ! Suc i) \<and> length (drop 700 (?chunks ! i)) = 100)
          \<and> (\<forall>i. i + 2 < length ?chunks \<longrightarrow> length (?chunks ! i) = 800)
          \<and> (\<forall>i < length ?chunks. length (?chunks ! i) \<le> 800)"
      by blast
  qed
  show ?thesis
    by (rule exI[of _ ?chunks]) (use ret len nth dflt in blast)
qed

theorem chunk_text_windowing_witness:
  "\<exists>chunks. chunk_text (replicate 1500 (CHR ''a'')) 800 100 = Some chunks
     \<and> length chunks = 3
     \<and> length (chunks ! 0) = 800 \<and> length (chunks ! 1) = 800 \<and> length (chunks ! 2) = 100
     \<and> drop 700 (chunks ! 0) = take 100 (chunks ! 1)"
proof -
  let ?s = "replicate 1500 (CHR ''a'')"
  have h1: "?s \<noteq> []" by simp
  have h2: "(100::int) < 800" by simp
  from chunk_text_windowing[OF h1 h2] obtain chunks where
    c: "chunk_text ?s 800 100 = Some chunks"
    and l: "\<forall>i. (i < length chunks) = (int i * (800 - 100) < int (length ?s))"
    and n: "\<forall>i < length chunks. chunks ! i = py_slice ?s (int i * (800 - 100)) (int i * (800 - 100) + 800)"
    and o: "\<forall>i. Suc i < length chunks \<and> length (chunks ! i) = 800 \<and> length (chunks ! Suc i) = 800 \<longrightarrow>
             drop 700 (chunks ! i) = take 100 (chunks ! Suc i) \<and> length (drop 700 (chunks ! i)) = 100"
    by blast
  from l have "2 < length chunks" and "\<not> 3 < length chunks" by simp_all
  then have len: "length chunks = 3" by simp
  from n len have c0: "chunks ! 0 = py_slice ?s 0 800" by simp
  from n len have c1: "chunks ! 1 = py_slice ?s 700 1500" by simp
  from n len have c2: "chunks ! 2 = py_slice ?s 1400 2200" by simp
  have l0: "length (chunks ! 0) = 800" unfolding c0 by (simp add: py_slice_def py_index_def)
  have l1: "length (chunks ! 1) = 800" unfolding c1 by (simp add: py_slice_def py_index_def)
  have l2: "length (chunks ! 2) = 100" unfolding c2 by (simp add: py_slice_def py_index_def)
  from o len l0 l1 have "drop 700 (chunks ! 0) = take 100 (chunks ! 1)" by simp
  with c len l0 l1 l2 show ?thesis by blast
qed

section \<open>Properties of the retrieval service and the answer strategy\<close>

lemma append_metas_eq: "append_metas ms pairs = ms @ map (\<lambda>(t, s). make_meta t s) pairs"
  unfolding append_metas_def by (induction pairs arbitrary: ms) auto

lemma collect_hits_eq:
  "collect_hits ms hits results = results @ map (hit_at ms) (filter (valid_position ms) hits)"
  by (induction ms hits results rule: collect_hits.induct) (auto simp: valid_position_def)

lemma Retriever_init_faiss:
  "Retriever_init True dk ipath mpath dimension =
     Inr \<lparr>index_path = ipath, meta_path = mpath, dim = dimension,
          index = Some (case dk ipath of Some (IndexBlob ix) \<Rightarrow> ix | _ \<Rightarrow> IndexFlatL2 dimension),
          metadatas = (case dk mpath of Some (JsonMeta ms) \<Rightarrow> ms | _ \<Rightarrow> [])\<rparr>"
  by (simp add: Retriever_init_def Retriever_load_def load_index_def load_metadata_def
        path_exists_def read_index_def json_load_def Let_def
      split: option.splits file_content.splits)

lemma Retriever_init_no_faiss:
  "Retriever_init False dk ipath mpath dimension =
     Inl (RuntimeError ''faiss is required. Please install faiss-cpu or faiss-gpu.'')"
  by (simp add: Retriever_init_def Retriever_load_def load_index_def load_metadata_def
        path_exists_def json_load_def Let_def
      split: option.splits file_content.splits)

lemma add_documents_Some:
  assumes "index r = Some ix"
  shows "add_documents encode r texts sources =
     (if list_all (\<lambda>v. int (length v) = d ix) (rows_of (encode texts))
      then Inr (r\<lparr>index := Some (ix\<lparr>xb := xb ix @ rows_of (encode texts)\<rparr>),
                 metadatas := metadatas r @ map (\<lambda>(t, s). make_meta t s) (zip texts sources)\<rparr>)
      else Inl DimensionMismatch)"
  using assms by (simp add: add_documents_def index_add_def append_metas_eq Let_def)

lemma add_documents_explicit:
  assumes "index r = Some ix"
  shows "add_documents encode r texts sources =
     (if list_all (\<lambda>v. int (length v) = d ix) (case encode texts of Arr1 v \<Rightarrow> [v] | Arr2 rows \<Rightarrow> rows)
      then Inr (r\<lparr>index := Some (ix\<lparr>xb := xb ix @ (case encode texts of Arr1 v \<Rightarrow> [v] | Arr2 rows \<Rightarrow> rows)\<rparr>),
                 metadatas := metadatas r @
                    map (\<lambda>(t, s). [(''text'', t), (''source'', s)]) (zip texts sources)\<rparr>)
      else Inl DimensionMismatch)"
  unfolding add_documents_Some[OF assms] by (simp add: rows_of_def make_meta_def[abs_def])

lemma add_each_sizes:
  assumes "index r = Some ix" "length (xb ix) = length (metadatas r)"
    and "\<forall>(texts, sources) \<in> set calls. length texts = length sources \<and>
          ((\<exists>rows. encode texts = Arr2 rows \<and> length rows = length texts)
           \<or> (\<exists>v. encode texts = Arr1 v \<and> length texts = 1))"
  shows "\<exists>ix'. index (add_each encode r calls) = Some ix' \<and> d ix' = d ix
     \<and> length (xb ix') = length (metadatas (add_each encode r calls))"
  using assms
proof (induction calls arbitrary: r ix)
  case Nil
  then show ?case by simp
next
  case (Cons c calls)
  obtain texts sources where c: "c = (texts, sources)" by (cases c)
  from Cons.prems(3) have l: "length texts = length sources"
    and shape: "(\<exists>rows. encode texts = Arr2 rows \<and> length rows = length texts)
           \<or> (\<exists>v. encode texts = Arr1 v \<and> length texts = 1)"
    and rest: "\<forall>(texts, sources) \<in> set calls. length texts = length sources \<and>
          ((\<exists>rows. encode texts = Arr2 rows \<and> length rows = length texts)
           \<or> (\<exists>v. encode texts = Arr1 v \<and> length texts = 1))"
    by (auto simp: c)
  let ?rows = "case encode texts of Arr1 v \<Rightarrow> [v] | Arr2 rows \<Rightarrow> rows"
  from shape have rl: "length ?rows = length texts" by auto
  show ?case
  proof (cases "list_all (\<lambda>v. int (length v) = d ix) ?rows")
    case False
    then have "add_documents encode r texts sources = Inl DimensionMismatch"
      by (simp add: add_documents_explicit[OF Cons.prems(1)])
    then show ?thesis using Cons.IH[OF Cons.prems(1,2) rest] by (simp add: c)
  next
    case True
    let ?ix1 = "ix\<lparr>xb := xb ix @ ?rows\<rparr>"
    let ?r1 = "r\<lparr>index := Some ?ix1,
                 metadatas := metadatas r @
                    map (\<lambda>(t, s). [(''text'', t), (''source'', s)]) (zip texts sources)\<rparr>"
    from True have ad: "add_documents encode r texts sources = Inr ?r1"
      by (simp add: add_documents_explicit[OF Cons.prems(1)])
    have i1: "index ?r1 = Some ?ix1" by simp
    have s1: "length (xb ?ix1) = length (metadatas ?r1)"
      using Cons.prems(2) rl l by simp
    from Cons.IH[OF i1 s1 rest] ad show ?thesis by (simp add: c)
  qed
qed

lemma add_each_explicit:
  assumes "index r = Some ix"
    and "list_all (\<lambda>(texts, sources). list_all (\<lambda>v. int (length v) = d ix)
            (case encode texts of Arr1 v \<Rightarrow> [v] | Arr2 rows \<Rightarrow> rows)) calls"
  shows "add_each encode r calls =
     r\<lparr>index := Some (ix\<lparr>xb := xb ix @ concat (map (\<lambda>(texts, sources).
                   case encode texts of Arr1 v \<Rightarrow> [v] | Arr2 rows \<Rightarrow> rows) calls)\<rparr>),
       metadatas := metadatas r @ concat (map (\<lambda>(texts, sources).
                   map (\<lambda>(t, s). [(''text'', t), (''source'', s)]) (zip texts sources)) calls)\<rparr>"
  using assms
proof (induction calls arbitrary: r ix)
  case Nil
  then show ?case by simp
next
  case (Cons c calls)
  obtain texts sources where c: "c = (texts, sources)" by (cases c)
  let ?rows = "case encode texts of Arr1 v \<Rightarrow> [v] | Arr2 rows \<Rightarrow> rows"
  let ?ix1 = "ix\<lparr>xb := xb ix @ ?rows\<rparr>"
  let ?r1 = "r\<lparr>index := Some ?ix1,
               metadatas := metadatas r @
                  map (\<lambda>(t, s). [(''text'', t), (''source'', s)]) (zip texts sources)\<rparr>"
  from Cons.prems(2) have ok: "list_all (\<lambda>v. int (length v) = d ix) ?rows"
    and rest: "list_all (\<lambda>(texts, sources). list_all (\<lambda>v. int (length v) = d ?ix1)
            (case encode texts of Arr1 v \<Rightarrow> [v] | Arr2 rows \<Rightarrow> rows)) calls"
    by (simp_all add: c)
  from ok have ad: "add_documents encode r texts sources = Inr ?r1"
    by (simp add: add_documents_explicit[OF Cons.prems(1)])
  have i1: "index ?r1 = Some ?ix1" by simp
  from Cons.IH[OF i1 rest] ad show ?case by (simp add: c)
qed

lemma remove_quietly_eq:
  "remove_quietly locked dk p = (if locked p then dk else dk(p := None))"
  by (auto simp: remove_quietly_def path_exists_def os_remove_def fun_eq_iff split: option.splits)

lemma reset_faiss:
  "reset True locked remove_files (dk, r) =
     Inr (if remove_files
          then (\<lambda>p. if (p = index_path r \<or> p = meta_path r) \<and> \<not> locked p then None else dk p)
          else dk,
          r\<lparr>index := Some \<lparr>d = dim r, xb = []\<rparr>, metadatas := []\<rparr>)"
  by (auto simp: reset_def remove_quietly_eq Let_def fun_eq_iff IndexFlatL2_def)

lemma reset_no_faiss:
  "reset False locked remove_files w =
     Inl (RuntimeError ''faiss is required to create or reset the index'')"
  by (simp add: reset_def split: prod.splits)

lemma add_documents_positions:
  assumes "index r = Some ix" and "length (xb ix) = length (metadatas r)"
    and l: "length texts = length sources" and e: "encode texts = Arr2 rows"
    and rl: "length rows = length texts"
  shows "(list_all (\<lambda>v. int (length v) = d ix) rows \<longrightarrow>
             (\<exists>r' ix'. add_documents encode r texts sources = Inr r' \<and> index r' = Some ix'
                \<and> d ix' = d ix \<and> index_path r' = index_path r \<and> meta_path r' = meta_path r
                \<and> dim r' = dim r
                \<and> xb ix' = xb ix @ rows
                \<and> metadatas r' = metadatas r @
                     map (\<lambda>(t, s). [(''text'', t), (''source'', s)]) (zip texts sources)
                \<and> length (xb ix') = length (metadatas r')
                \<and> (\<forall>i < length texts.
                      xb ix' ! (length (xb ix) + i) = rows ! i
                    \<and> metadatas r' ! (length (xb ix) + i) =
                        [(''text'', texts ! i), (''source'', sources ! i)])))
          \<and> (\<not> list_all (\<lambda>v. int (length v) = d ix) rows \<longrightarrow>
                add_documents encode r texts sources = Inl DimensionMismatch)"
proof (intro conjI impI)
  assume "\<not> list_all (\<lambda>v. int (length v) = d ix) rows"
  then show "add_documents encode r texts sources = Inl DimensionMismatch"
    by (simp add: add_documents_explicit[OF assms(1)] e)
next
  assume dims: "list_all (\<lambda>v. int (length v) = d ix) rows"
  let ?ix' = "ix\<lparr>xb := xb ix @ rows\<rparr>"
  let ?r' = "r\<lparr>index := Some ?ix',
               metadatas := metadatas r @
                  map (\<lambda>(t, s). [(''text'', t), (''source'', s)]) (zip texts sources)\<rparr>"
  have a: "add_documents encode r texts sources = Inr ?r'"
    using dims by (simp add: add_documents_explicit[OF assms(1)] e)
  have b: "index ?r' = Some ?ix' \<and> d ?ix' = d ix \<and> index_path ?r' = index_path r
      \<and> meta_path ?r' = meta_path r \<and> dim ?r' = dim r \<and> xb ?ix' = xb ix @ rows
      \<and> metadatas ?r' = metadatas r @
                 map (\<lambda>(t, s). [(''text'', t), (''source'', s)]) (zip texts sources)"
    by simp
  have c: "length (xb ?ix') = length (metadatas ?r')"
    using assms(2) l rl by simp
  have p: "\<forall>i < length texts.
                  xb ?ix' ! (length (xb ix) + i) = rows ! i
                \<and> metadatas ?r' ! (length (xb ix) + i) =
                    [(''text'', texts ! i), (''source'', sources ! i)]"
    using l by (simp add: assms(2) nth_append)
  from a b c p show "\<exists>r' ix'. add_documents encode r texts sources = Inr r' \<and> index r' = Some ix'
            \<and> d ix' = d ix \<and> index_path r' = index_path r \<and> meta_path r' = meta_path r
            \<and> dim r' = dim r
            \<and> xb ix' = xb ix @ rows
            \<and> metadatas r' = metadatas r @
                 map (\<lambda>(t, s). [(''text'', t), (''source'', s)]) (zip texts sources)
            \<and> length (xb ix') = length (metadatas r')
            \<and> (\<forall>i < length texts.
                  xb ix' ! (length (xb ix) + i) = rows ! i
                \<and> metadatas r' ! (length (xb ix) + i) =
                    [(''text'', texts ! i), (''source'', sources ! i)])"
    by blast
qed


text \<open>
  Claim C1 as stated: a loaded index whose dimension differs from the embedding provider's
  dimension is replaced by a fresh empty index. \<open>_load\<close> never compares dimensions: with a
  readable index file of dimension 5 holding one vector and a provider of dimension 3, the
  constructed object keeps the loaded index.
\<close>
theorem Retriever_init_dimension_counterexample:
  "Retriever_init True [''faiss.index'' \<mapsto> IndexBlob \<lparr>d = 5, xb = [[1, 2, 3, 4, 5]]\<rparr>]
     ''faiss.index'' ''index_meta.json'' 3 =
   Inr \<lparr>index_path = ''faiss.index'', meta_path = ''index_meta.json'', dim = 3,
        index = Some \<lparr>d = 5, xb = [[1, 2, 3, 4, 5]]\<rparr>, metadatas = []\<rparr>
   \<and> \<lparr>d = 5, xb = [[1, 2, 3, 4, 5]]\<rparr> \<noteq> IndexFlatL2 3"
  by (simp add: Retriever_init_faiss IndexFlatL2_def)

text \<open>
  Claim C1, amended. When faiss is available, construction never raises: if the index file
  is absent or unreadable a fresh empty index of the provider's dimension is created, and a
  readable index file is loaded as it is, whatever its dimension; a missing or unreadable
  metadata file gives the empty metadata list. When faiss is unavailable, and only then,
  construction raises the \<open>RuntimeError\<close> that asks for faiss.
\<close>
theorem Retriever_init_fail_open:
  "(faiss \<longrightarrow>
      Retriever_init faiss dk ipath mpath dimension =
        Inr \<lparr>index_path = ipath, meta_path = mpath, dim = dimension,
             index = Some (case dk ipath of Some (IndexBlob ix) \<Rightarrow> ix | _ \<Rightarrow> IndexFlatL2 dimension),
             metadatas = (case dk mpath of Some (JsonMeta ms) \<Rightarrow> ms | _ \<Rightarrow> [])\<rparr>)
   \<and> (\<not> faiss \<longrightarrow>
      Retriever_init faiss dk ipath mpath dimension =
        Inl (RuntimeError ''faiss is required. Please install faiss-cpu or faiss-gpu.''))"
  by (cases faiss) (simp_all add: Retriever_init_faiss Retriever_init_no_faiss)

theorem Retriever_init_fail_open_witness:
  "Retriever_init True [''faiss.index'' \<mapsto> Garbage, ''index_meta.json'' \<mapsto> Garbage]
     ''faiss.index'' ''index_meta.json'' 3 =
   Inr \<lparr>index_path = ''faiss.index'', meta_path = ''index_meta.json'', dim = 3,
        index = Some (IndexFlatL2 3), metadatas = []\<rparr>
   \<and> Retriever_init True Map.empty ''faiss.index'' ''index_meta.json'' 3 =
   Inr \<lparr>index_path = ''faiss.index'', meta_path = ''index_meta.json'', dim = 3,
        index = Some (IndexFlatL2 3), metadatas = []\<rparr>
   \<and> Retriever_init False Map.empty ''faiss.index'' ''index_meta.json'' 3 =
   Inl (RuntimeError ''faiss is required. Please install faiss-cpu or faiss-gpu.'')"
  using Retriever_init_fail_open[of True "[''faiss.index'' \<mapsto> Garbage, ''index_meta.json'' \<mapsto> Garbage]"
          "''faiss.index''" "''index_meta.json''" 3]
    Retriever_init_fail_open[of True Map.empty "''faiss.index''" "''index_meta.json''" 3]
    Retriever_init_fail_open[of False Map.empty "''faiss.index''" "''index_meta.json''" 3]
  by simp

text \<open>
  Claim C3 (index/metadata lockstep). Take an object whose index holds as many vectors as
  its metadata list holds records, and any sequence of \<open>add_documents\<close> calls with
  \<open>len(texts) = len(sources)\<close> for which the embedding provider returns one row per text
  (a two-dimensional array with \<open>len(texts)\<close> rows, or a single vector for a single text).
  After the sequence the two sizes are again equal. If every embedding has the index's
  dimension, every call returns, and the index holds the old vectors followed by the rows of
  each call in order, and the metadata list the old records followed by the records
  \<open>{text: texts[i], source: sources[i]}\<close> of each call in order. A single such call returns
  and stores row \<open>i\<close> and the record of \<open>texts[i]\<close>, \<open>sources[i]\<close> at the same position
  \<open>size + i\<close>; with an embedding of another dimension it raises and stores nothing.
  \<open>reset\<close> returns and replaces the index by an empty one of the provider's dimension
  and the metadata by the empty list in the same call.
\<close>
theorem add_documents_lockstep:
  assumes "index r = Some ix" and "length (xb ix) = length (metadatas r)"
    and "\<forall>(texts, sources) \<in> set calls. length texts = length sources \<and>
          ((\<exists>rows. encode texts = Arr2 rows \<and> length rows = length texts)
           \<or> (\<exists>v. encode texts = Arr1 v \<and> length texts = 1))"
  shows "(\<exists>ix'. index (add_each encode r calls) = Some ix' \<and> d ix' = d ix
           \<and> length (xb ix') = length (metadatas (add_each encode r calls)))
     \<and> (list_all (\<lambda>(texts, sources). list_all (\<lambda>v. int (length v) = d ix)
            (case encode texts of Arr1 v \<Rightarrow> [v] | Arr2 rows \<Rightarrow> rows)) calls \<longrightarrow>
         add_each encode r calls =
           r\<lparr>index := Some (ix\<lparr>xb := xb ix @ concat (map (\<lambda>(texts, sources).
                         case encode texts of Arr1 v \<Rightarrow> [v] | Arr2 rows \<Rightarrow> rows) calls)\<rparr>),
             metadatas := metadatas r @ concat (map (\<lambda>(texts, sources).
                         map (\<lambda>(t, s). [(''text'', t), (''source'', s)]) (zip texts sources)) calls)\<rparr>)
     \<and> (\<forall>texts sources rows.
          length texts = length sources \<and> encode texts = Arr2 rows \<and> length rows = length texts \<longrightarrow>
          (list_all (\<lambda>v. int (length v) = d ix) rows \<longrightarrow>
             (\<exists>r' ix'. add_documents encode r texts sources = Inr r' \<and> index r' = Some ix'
                \<and> d ix' = d ix \<and> index_path r' = index_path r \<and> meta_path r' = meta_path r
                \<and> dim r' = dim r
                \<and> xb ix' = xb ix @ rows
                \<and> metadatas r' = metadatas r @
                     map (\<lambda>(t, s). [(''text'', t), (''source'', s)]) (zip texts sources)
                \<and> length (xb ix') = length (metadatas r')
                \<and> (\<forall>i < length texts.
                      xb ix' ! (length (xb ix) + i) = rows ! i
                    \<and> metadatas r' ! (length (xb ix) + i) =
                        [(''text'', texts ! i), (''source'', sources ! i)])))
          \<and> (\<not> list_all (\<lambda>v. int (length v) = d ix) rows \<longrightarrow>
                add_documents encode r texts sources = Inl DimensionMismatch))
     \<and> (\<forall>locked remove_files dk. \<exists>dk'.
          reset True locked remove_files (dk, r) =
            Inr (dk', r\<lparr>index := Some \<lparr>d = dim r, xb = []\<rparr>, metadatas := []\<rparr>))"
proof (intro conjI)
  show "\<exists>ix'. index (add_each encode r calls) = Some ix' \<and> d ix' = d ix
           \<and> length (xb ix') = length (metadatas (add_each encode r calls))"
    by (rule add_each_sizes[OF assms])
next
  show "list_all (\<lambda>(texts, sources). list_all (\<lambda>v. int (length v) = d ix)
            (case encode texts of Arr1 v \<Rightarrow> [v] | Arr2 rows \<Rightarrow> rows)) calls \<longrightarrow>
         add_each encode r calls =
           r\<lparr>index := Some (ix\<lparr>xb := xb ix @ concat (map (\<lambda>(texts, sources).
                         case encode texts of Arr1 v \<Rightarrow> [v] | Arr2 rows \<Rightarrow> rows) calls)\<rparr>),
             metadatas := metadatas r @ concat (map (\<lambda>(texts, sources).
                         map (\<lambda>(t, s). [(''text'', t), (''source'', s)]) (zip texts sources)) calls)\<rparr>"
    by (rule impI) (rule add_each_explicit[OF assms(1)])
next
  show "\<forall>texts sources rows.
          length texts = length sources \<and> encode texts = Arr2 rows \<and> length rows = length texts \<longrightarrow>
          (list_all (\<lambda>v. int (length v) = d ix) rows \<longrightarrow>
             (\<exists>r' ix'. add_documents encode r texts sources = Inr r' \<and> index r' = Some ix'
                \<and> d ix' = d ix \<and> index_path r' = index_path r \<and> meta_path r' = meta_path r
                \<and> dim r' = dim r
                \<and> xb ix' = xb ix @ rows
                \<and> metadatas r' = metadatas r @
                     map (\<lambda>(t, s). [(''text'', t), (''source'', s)]) (zip texts sources)
                \<and> length (xb ix') = length (metadatas r')
                \<and> (\<forall>i < length texts.
                      xb ix' ! (length (xb ix) + i) = rows ! i
                    \<and> metadatas r' ! (length (xb ix) + i) =
                        [(''text'', texts ! i), (''source'', sources ! i)])))
          \<and> (\<not> list_all (\<lambda>v. int (length v) = d ix) rows \<longrightarrow>
                add_documents encode r texts sources = Inl DimensionMismatch)"
    by (intro allI impI, elim conjE) (rule add_documents_positions[OF assms(1,2)])
next
  show "\<forall>locked remove_files dk. \<exists>dk'.
          reset True locked remove_files (dk, r) =
            Inr (dk', r\<lparr>index := Some \<lparr>d = dim r, xb = []\<rparr>, metadatas := []\<rparr>)"
    by (simp add: reset_faiss)
qed

theorem add_documents_lockstep_witness:
  "add_each (\<lambda>ts. case ts of [t] \<Rightarrow> Arr1 [real (length t), 0]
                       | _ \<Rightarrow> Arr2 (map (\<lambda>t. [real (length t), 0]) ts))
        \<lparr>index_path = ''faiss.index'', meta_path = ''index_meta.json'', dim = 2,
          index = Some \<lparr>d = 2, xb = []\<rparr>, metadatas = []\<rparr>
        [([''a'', ''bc''], [''f.txt'', ''f.txt'']), ([''def''], [''g.txt''])] =
      \<lparr>index_path = ''faiss.index'', meta_path = ''index_meta.json'', dim = 2,
        index = Some \<lparr>d = 2, xb = [[1, 0], [2, 0], [3, 0]]\<rparr>,
        metadatas = [[(''text'', ''a''), (''source'', ''f.txt'')],
                     [(''text'', ''bc''), (''source'', ''f.txt'')],
                     [(''text'', ''def''), (''source'', ''g.txt'')]]\<rparr>"
proof -
  let ?enc = "\<lambda>ts :: string list. case ts of [t] \<Rightarrow> Arr1 [real (length t), 0]
                       | _ \<Rightarrow> Arr2 (map (\<lambda>t. [real (length t), 0]) ts)"
  let ?ix = "\<lparr>d = 2, xb = []\<rparr>"
  let ?r = "\<lparr>index_path = ''faiss.index'', meta_path = ''index_meta.json'', dim = 2,
             index = Some ?ix, metadatas = []\<rparr>"
  let ?calls = "[([''a'', ''bc''], [''f.txt'', ''f.txt'']), ([''def''], [''g.txt''])]"
  have h1: "index ?r = Some ?ix" by simp
  have h2: "length (xb ?ix) = length (metadatas ?r)" by simp
  have h3: "\<forall>(texts, sources) \<in> set ?calls. length texts = length sources \<and>
          ((\<exists>rows. ?enc texts = Arr2 rows \<and> length rows = length texts)
           \<or> (\<exists>v. ?enc texts = Arr1 v \<and> length texts = 1))"
    by simp
  from add_documents_lockstep[where encode = ?enc and r = ?r and ix = ?ix and calls = ?calls,
      OF h1 h2 h3]
  show ?thesis by simp
qed

text \<open>
  Claim C4 (the length precondition is not checked). When \<open>texts\<close> is longer than
  \<open>sources\<close> and the embeddings have the index's dimension, \<open>add_documents\<close> returns
  without error, the index grows by \<open>len(texts)\<close> vectors and the metadata only by
  \<open>len(sources)\<close> records, so an object that was in lockstep no longer is.
\<close>
theorem add_documents_unchecked_lengths:
  assumes "index r = Some ix" "ntotal ix = length (metadatas r)"
    and "length sources < length texts"
    and "length (rows_of (encode texts)) = length texts"
    and "list_all (\<lambda>v. int (length v) = d ix) (rows_of (encode texts))"
  shows "\<exists>r' ix'. add_documents encode r texts sources = Inr r' \<and> index r' = Some ix'
     \<and> ntotal ix' = ntotal ix + length texts
     \<and> length (metadatas r') = length (metadatas r) + length sources
     \<and> length (metadatas r') < ntotal ix'
     \<and> \<not> lockstep r'"
  using assms by (simp add: add_documents_Some ntotal_def lockstep_def)

theorem add_documents_unchecked_lengths_witness:
  "\<exists>r' ix'. add_documents (\<lambda>ts. Arr2 (map (\<lambda>t. [1, 0]) ts))
        \<lparr>index_path = ''faiss.index'', meta_path = ''index_meta.json'', dim = 2,
          index = Some (IndexFlatL2 2), metadatas = []\<rparr> [''a'', ''b''] [''f.txt''] = Inr r'
     \<and> index r' = Some ix' \<and> ntotal ix' = 2 \<and> length (metadatas r') = 1"
proof -
  let ?enc = "\<lambda>ts :: string list. Arr2 (map (\<lambda>t. [1, 0]) ts)"
  let ?r = "\<lparr>index_path = ''faiss.index'', meta_path = ''index_meta.json'', dim = 2,
             index = Some (IndexFlatL2 2), metadatas = []\<rparr>"
  have h1: "index ?r = Some (IndexFlatL2 2)" by simp
  have h2: "ntotal (IndexFlatL2 2) = length (metadatas ?r)" by (simp add: ntotal_def IndexFlatL2_def)
  have h3: "length [''f.txt''] < length [''a'', ''b'']" by simp
  have h4: "length (rows_of (?enc [''a'', ''b''])) = length [''a'', ''b'']" by (simp add: rows_of_def)
  have h5: "list_all (\<lambda>v. int (length v) = d (IndexFlatL2 2)) (rows_of (?enc [''a'', ''b'']))"
    by (simp add: rows_of_def IndexFlatL2_def)
  from add_documents_unchecked_lengths[where encode = ?enc and r = ?r and ix = "IndexFlatL2 2"
      and texts = "[''a'', ''b'']" and sources = "[''f.txt'']", OF h1 h2 h3 h4 h5]
  show ?thesis
    by (auto simp: ntotal_def IndexFlatL2_def)
qed

text \<open>
  Claim C5 as stated: after \<open>reset\<close> with \<open>remove_files\<close>, called twice, both persisted
  files are absent. A removal that the system refuses is swallowed by the \<open>except\<close>
  clause: when the index path cannot be removed, both calls return normally and the path
  still exists.
\<close>
theorem reset_files_absent_counterexample:
  "reset True ((=) ''faiss.index'') True
     ([''faiss.index'' \<mapsto> IndexBlob \<lparr>d = 2, xb = [[1, 0]]\<rparr>],
      \<lparr>index_path = ''faiss.index'', meta_path = ''index_meta.json'', dim = 2,
        index = Some \<lparr>d = 2, xb = [[1, 0]]\<rparr>,
        metadatas = [[(''text'', ''a''), (''source'', ''f.txt'')]]\<rparr>) =
   Inr ([''faiss.index'' \<mapsto> IndexBlob \<lparr>d = 2, xb = [[1, 0]]\<rparr>],
        \<lparr>index_path = ''faiss.index'', meta_path = ''index_meta.json'', dim = 2,
          index = Some \<lparr>d = 2, xb = []\<rparr>, metadatas = []\<rparr>)
   \<and> reset True ((=) ''faiss.index'') True
     ([''faiss.index'' \<mapsto> IndexBlob \<lparr>d = 2, xb = [[1, 0]]\<rparr>],
      \<lparr>index_path = ''faiss.index'', meta_path = ''index_meta.json'', dim = 2,
        index = Some \<lparr>d = 2, xb = []\<rparr>, metadatas = []\<rparr>) =
   Inr ([''faiss.index'' \<mapsto> IndexBlob \<lparr>d = 2, xb = [[1, 0]]\<rparr>],
        \<lparr>index_path = ''faiss.index'', meta_path = ''index_meta.json'', dim = 2,
          index = Some \<lparr>d = 2, xb = []\<rparr>, metadatas = []\<rparr>)
   \<and> path_exists [''faiss.index'' \<mapsto> IndexBlob \<lparr>d = 2, xb = [[1, 0]]\<rparr>] ''faiss.index''"
  by (simp add: reset_faiss path_exists_def fun_eq_iff)

text \<open>
  Claim C5, amended. With faiss available, \<open>reset\<close> returns, and a second \<open>reset\<close>
  with the same flag returns normally with the very same disk and object: the index is the
  empty index (size 0) of the provider's dimension and the metadata list is empty. With
  \<open>remove_files\<close>, each of the two persisted paths whose removal the system does not
  refuse is absent, every other path is as it was, and the second call, which finds the
  removed files missing, does not fail. Without \<open>remove_files\<close> the disk is unchanged.
  Without faiss the call raises.
\<close>
theorem reset_idempotent:
  "(faiss \<longrightarrow>
      (\<exists>dk'. reset faiss locked remove_files (dk, r) =
                Inr (dk', r\<lparr>index := Some \<lparr>d = dim r, xb = []\<rparr>, metadatas := []\<rparr>)
         \<and> reset faiss locked remove_files
               (dk', r\<lparr>index := Some \<lparr>d = dim r, xb = []\<rparr>, metadatas := []\<rparr>) =
                Inr (dk', r\<lparr>index := Some \<lparr>d = dim r, xb = []\<rparr>, metadatas := []\<rparr>)
         \<and> (remove_files \<longrightarrow>
               (\<not> locked (index_path r) \<longrightarrow> dk' (index_path r) = None)
             \<and> (\<not> locked (meta_path r) \<longrightarrow> dk' (meta_path r) = None)
             \<and> (\<forall>p. locked p \<or> (p \<noteq> index_path r \<and> p \<noteq> meta_path r) \<longrightarrow> dk' p = dk p))
         \<and> (\<not> remove_files \<longrightarrow> dk' = dk)))
   \<and> (\<not> faiss \<longrightarrow>
        reset faiss locked remove_files (dk, r) =
          Inl (RuntimeError ''faiss is required to create or reset the index''))"
proof (cases faiss)
  case True
  let ?dk' = "if remove_files
          then (\<lambda>p. if (p = index_path r \<or> p = meta_path r) \<and> \<not> locked p then None else dk p)
          else dk"
  let ?r' = "r\<lparr>index := Some \<lparr>d = dim r, xb = []\<rparr>, metadatas := []\<rparr>"
  have a: "reset True locked remove_files (dk, r) = Inr (?dk', ?r')" by (rule reset_faiss)
  have b: "reset True locked remove_files (?dk', ?r') = Inr (?dk', ?r')"
    unfolding reset_faiss by (auto simp: fun_eq_iff)
  have c: "remove_files \<longrightarrow>
               (\<not> locked (index_path r) \<longrightarrow> ?dk' (index_path r) = None)
             \<and> (\<not> locked (meta_path r) \<longrightarrow> ?dk' (meta_path r) = None)
             \<and> (\<forall>p. locked p \<or> (p \<noteq> index_path r \<and> p \<noteq> meta_path r) \<longrightarrow> ?dk' p = dk p)"
    by auto
  have e: "\<not> remove_files \<longrightarrow> ?dk' = dk" by simp
  from a b c e have "\<exists>dk'. reset True locked remove_files (dk, r) = Inr (dk', ?r')
         \<and> reset True locked remove_files (dk', ?r') = Inr (dk', ?r')
         \<and> (remove_files \<longrightarrow>
               (\<not> locked (index_path r) \<longrightarrow> dk' (index_path r) = None)
             \<and> (\<not> locked (meta_path r) \<longrightarrow> dk' (meta_path r) = None)
             \<and> (\<forall>p. locked p \<or> (p \<noteq> index_path r \<and> p \<noteq> meta_path r) \<longrightarrow> dk' p = dk p))
         \<and> (\<not> remove_files \<longrightarrow> dk' = dk)"
    by (intro exI[of _ ?dk'] conjI)
  with True show ?thesis by simp
next
  case False
  then show ?thesis by (simp add: reset_no_faiss)
qed

theorem reset_idempotent_witness:
  "\<exists>dk'. reset True (\<lambda>p. False) True
       ([''faiss.index'' \<mapsto> IndexBlob \<lparr>d = 2, xb = [[1, 0]]\<rparr>,
         ''index_meta.json'' \<mapsto> JsonMeta [[(''text'', ''a''), (''source'', ''f.txt'')]],
         ''notes.txt'' \<mapsto> Garbage],
        \<lparr>index_path = ''faiss.index'', meta_path = ''index_meta.json'', dim = 2,
          index = Some \<lparr>d = 2, xb = [[1, 0]]\<rparr>,
          metadatas = [[(''text'', ''a''), (''source'', ''f.txt'')]]\<rparr>) =
     Inr (dk', \<lparr>index_path = ''faiss.index'', meta_path = ''index_meta.json'', dim = 2,
                index = Some \<lparr>d = 2, xb = []\<rparr>, metadatas = []\<rparr>)
     \<and> reset True (\<lambda>p. False) True
          (dk', \<lparr>index_path = ''faiss.index'', meta_path = ''index_meta.json'', dim = 2,
                 index = Some \<lparr>d = 2, xb = []\<rparr>, metadatas = []\<rparr>) =
        Inr (dk', \<lparr>index_path = ''faiss.index'', meta_path = ''index_meta.json'', dim = 2,
                   index = Some \<lparr>d = 2, xb = []\<rparr>, metadatas = []\<rparr>)
     \<and> dk' ''faiss.index'' = None \<and> dk' ''index_meta.json'' = None
     \<and> dk' ''notes.txt'' = Some Garbage"
proof -
  let ?dk = "[''faiss.index'' \<mapsto> IndexBlob \<lparr>d = 2, xb = [[1, 0]]\<rparr>,
       ''index_meta.json'' \<mapsto> JsonMeta [[(''text'', ''a''), (''source'', ''f.txt'')]],
       ''notes.txt'' \<mapsto> Garbage]"
  let ?r = "\<lparr>index_path = ''faiss.index'', meta_path = ''index_meta.json'', dim = 2,
          index = Some \<lparr>d = 2, xb = [[1, 0]]\<rparr>,
          metadatas = [[(''text'', ''a''), (''source'', ''f.txt'')]]\<rparr>"
  let ?r' = "?r\<lparr>index := Some \<lparr>d = dim ?r, xb = []\<rparr>, metadatas := []\<rparr>"
  note th = reset_idempotent[of True "\<lambda>p. False" True ?dk ?r, THEN conjunct1, THEN mp, OF TrueI]
  then obtain dk' where a: "reset True (\<lambda>p. False) True (?dk, ?r) = Inr (dk', ?r')"
    and b: "reset True (\<lambda>p. False) True (dk', ?r') = Inr (dk', ?r')"
    and c: "True \<longrightarrow>
               (\<not> False \<longrightarrow> dk' (index_path ?r) = None)
             \<and> (\<not> False \<longrightarrow> dk' (meta_path ?r) = None)
             \<and> (\<forall>p. False \<or> (p \<noteq> index_path ?r \<and> p \<noteq> meta_path ?r) \<longrightarrow> dk' p = ?dk p)"
    by (elim exE conjE)
  from c have c1: "dk' ''faiss.index'' = None" and c2: "dk' ''index_meta.json'' = None"
    and c3: "\<forall>p. p \<noteq> ''faiss.index'' \<and> p \<noteq> ''index_meta.json'' \<longrightarrow> dk' p = ?dk p"
    by simp_all
  from c3 have c4: "dk' ''notes.txt'' = Some Garbage" by simp
  have r': "?r' = \<lparr>index_path = ''faiss.index'', meta_path = ''index_meta.json'', dim = 2,
                index = Some \<lparr>d = 2, xb = []\<rparr>, metadatas = []\<rparr>" by simp
  from a b c1 c2 c4 show ?thesis unfolding r' by (intro exI[of _ dk'] conjI)
qed

text \<open>
  Claim C6 (search skips stale positions). Whatever distances and positions the index query
  returns, \<open>search\<close> returns normally, and its results are the hits of exactly those
  positions \<open>idx\<close> with \<open>0 \<le> idx < len(metadatas)\<close>, in order; the others are skipped.
  With an empty metadata list the result is empty; in particular so is the result on an
  object constructed when no index file and no metadata file exist.
\<close>
theorem search_skips_invalid_positions:
  "(index r = Some ix \<and> index_search ix (encode [query]) top_k = Inr (D0, I0) \<longrightarrow>
      search encode index_search r query top_k =
        Inr (map (hit_at (metadatas r)) (filter (valid_position (metadatas r)) (zip D0 I0)))
      \<and> (metadatas r = [] \<longrightarrow> search encode index_search r query top_k = Inr []))
   \<and> (dk ipath = None \<and> dk mpath = None
        \<and> index_search (IndexFlatL2 dimension) (encode [query]) top_k = Inr (D0, I0) \<longrightarrow>
      (\<exists>r0. Retriever_init True dk ipath mpath dimension = Inr r0
         \<and> search encode index_search r0 query top_k = Inr []))"
proof (intro conjI impI)
  assume a: "index r = Some ix \<and> index_search ix (encode [query]) top_k = Inr (D0, I0)"
  then show s: "search encode index_search r query top_k =
        Inr (map (hit_at (metadatas r)) (filter (valid_position (metadatas r)) (zip D0 I0)))"
    by (simp add: search_def collect_hits_eq)
  assume "metadatas r = []"
  then have "filter (valid_position (metadatas r)) (zip D0 I0) = []"
    by (auto simp: valid_position_def filter_empty_conv)
  with s show "search encode index_search r query top_k = Inr []" by simp
next
  assume a: "dk ipath = None \<and> dk mpath = None
        \<and> index_search (IndexFlatL2 dimension) (encode [query]) top_k = Inr (D0, I0)"
  let ?r0 = "\<lparr>index_path = ipath, meta_path = mpath, dim = dimension,
          index = Some (IndexFlatL2 dimension), metadatas = []\<rparr>"
  from a have i: "Retriever_init True dk ipath mpath dimension = Inr ?r0"
    by (simp add: Retriever_init_faiss)
  from a have "search encode index_search ?r0 query top_k = Inr []"
    by (simp add: search_def collect_hits_eq valid_position_def)
  with i show "\<exists>r0. Retriever_init True dk ipath mpath dimension = Inr r0
         \<and> search encode index_search r0 query top_k = Inr []" by blast
qed


theorem search_skips_invalid_positions_witness:
  "search (\<lambda>ts. Arr2 (map (\<lambda>t. [1, 0]) ts)) (\<lambda>ix q k. Inr ([1 / 2, 3], [0, - 1]))
      \<lparr>index_path = ''faiss.index'', meta_path = ''index_meta.json'', dim = 2,
        index = Some \<lparr>d = 2, xb = [[1, 0]]\<rparr>, metadatas = [make_meta ''a'' ''f.txt'']\<rparr> ''q'' 2 =
     Inr [\<lparr>hit_score = 1 / 2, hit_text = Some ''a'', hit_source = Some ''f.txt''\<rparr>]
   \<and> (\<exists>r0. Retriever_init True Map.empty ''faiss.index'' ''index_meta.json'' 2 = Inr r0
         \<and> search (\<lambda>ts. Arr2 (map (\<lambda>t. [1, 0]) ts)) (\<lambda>ix q k. Inr ([1 / 2, 3], [0, - 1]))
              r0 ''q'' 2 = Inr [])"
  using search_skips_invalid_positions[where encode = "\<lambda>ts. Arr2 (map (\<lambda>t. [1, 0]) ts)"
      and index_search = "\<lambda>ix q k. Inr ([1 / 2, 3], [0, - 1])"
      and r = "\<lparr>index_path = ''faiss.index'', meta_path = ''index_meta.json'', dim = 2,
        index = Some \<lparr>d = 2, xb = [[1, 0]]\<rparr>, metadatas = [make_meta ''a'' ''f.txt'']\<rparr>"
      and ix = "\<lparr>d = 2, xb = [[1, 0]]\<rparr>" and query = "''q''" and top_k = 2
      and ?D0.0 = "[1 / 2, 3]" and ?I0.0 = "[0, - 1]"
      and dk = Map.empty and ipath = "''faiss.index''" and mpath = "''index_meta.json''"
      and dimension = 2]
  by (simp add: hit_at_def valid_position_def dict_get_def make_meta_def)

text \<open>
  Claim C8 (extractive answer normalisation). When the span returned by the model is missing,
  empty or empty after stripping, or the score is missing (then 0) or below 0.1,
  \<open>answer_with_roberta\<close> returns the sentinel string, and logs it; the function has no
  error result.
\<close>
theorem answer_with_roberta_normalizes:
  assumes "roberta_model question (str_join [CHR 0x0A] contexts) = \<lparr>res_answer = a, res_score = sc\<rparr>"
    and "a = None \<or> a = Some [] \<or> (\<exists>span. a = Some span \<and> str_strip isspace span = [])
         \<or> sc = None \<or> (\<exists>score. sc = Some score \<and> score < 1 / 10)"
  shows "answer_with_roberta isspace roberta_model now lg question contexts =
     (sentinel,
      lg @ [\<lparr>log_timestamp = now @ ''Z'', log_question = question, log_answer = sentinel,
             log_confidence = Some (case sc of None \<Rightarrow> 0 | Some score \<Rightarrow> score)\<rparr>])"
  using assms
  by (auto simp: answer_with_roberta_def log_qa_interaction_def Let_def str_strip_def
      split: option.splits)

theorem answer_with_roberta_normalizes_witness:
  "answer_with_roberta (\<lambda>c. c = CHR '' '')
      (\<lambda>q c. \<lparr>res_answer = Some ''Paris'', res_score = Some (1 / 20)\<rparr>)
      ''2026-01-01T00:00:00'' [] ''Capital?'' [''Paris is the capital.'', ''Of France.''] =
     (sentinel,
      [\<lparr>log_timestamp = ''2026-01-01T00:00:00Z'', log_question = ''Capital?'',
        log_answer = sentinel, log_confidence = Some (1 / 20)\<rparr>])"
proof -
  have h1: "(\<lambda>q c. \<lparr>res_answer = Some ''Paris'', res_score = Some (1 / 20 :: real)\<rparr>) ''Capital?''
      (str_join [CHR 0x0A] [''Paris is the capital.'', ''Of France.'']) =
      \<lparr>res_answer = Some ''Paris'', res_score = Some (1 / 20)\<rparr>" by simp
  have h2: "Some ''Paris'' = None \<or> Some ''Paris'' = Some [] \<or>
      (\<exists>span. Some ''Paris'' = Some span \<and> str_strip (\<lambda>c. c = CHR '' '') span = [])
      \<or> Some (1 / 20 :: real) = None \<or> (\<exists>score. Some (1 / 20 :: real) = Some score \<and> score < 1 / 10)"
  proof -
    have "(1 / 20 :: real) < 1 / 10" by simp
    then show ?thesis by blast
  qed
  from answer_with_roberta_normalizes[where roberta_model = "\<lambda>q c. \<lparr>res_answer = Some ''Paris'', res_score = Some (1 / 20)\<rparr>"
      and isspace = "\<lambda>c. c = CHR '' ''" and now = "''2026-01-01T00:00:00''" and lg = "[]", OF h1 h2]
  show ?thesis by simp
qed

end
